theory Spec2Isabelle
  imports Main "HOL-Library.Word" "HOL-Library.Sublist"
begin

section \<open>HomeStream: the range-request streaming handler\<close>

text \<open>
  The development embeds the handler of \<^verbatim>\<open>GET /stream/:filename\<close> of the server
  script. The handler is a straight-line JavaScript function over the request, the file
  system and the response object. It calls into the platform (\<^verbatim>\<open>path.join\<close>,
  \<^verbatim>\<open>fs.existsSync\<close>, \<^verbatim>\<open>fs.statSync\<close>, \<^verbatim>\<open>fs.createReadStream\<close>,
  \<^verbatim>\<open>String.prototype.replace\<close>, \<^verbatim>\<open>split\<close>, \<^verbatim>\<open>parseInt\<close>); those
  platform functions are modelled first, following the ECMAScript and Node.js
  documentation (POSIX flavour of \<^verbatim>\<open>path\<close>), then the handler on top of them.

  The inputs of the handler are the route parameter \<^verbatim>\<open>req.params.filename\<close>, which
  the framework hands over percent-decoded (so it may hold \<^verbatim>\<open>/\<close> and \<^verbatim>\<open>..\<close>), and
  the header \<^verbatim>\<open>req.headers.range\<close>, a string or \<^verbatim>\<open>undefined\<close>.
\<close>

subsection \<open>JavaScript numbers\<close>

text \<open>
  A JavaScript number is a double. Every number the handler computes comes from
  \<^verbatim>\<open>parseInt\<close>, from the file size, or from adding and subtracting those, so it is
  \<^verbatim>\<open>NaN\<close>, an infinity, or an integer. The model keeps integers exact. A double is
  exact only up to \<open>2 ^ 53\<close> in magnitude, but the handler lets a number reach the
  response only after \<^verbatim>\<open>fs.createReadStream\<close> accepted \<^verbatim>\<open>start\<close> and
  \<^verbatim>\<open>end\<close>, which it does for safe integers (and an infinite \<^verbatim>\<open>end\<close>) only; rounding
  is monotone and \<open>2 ^ 53\<close> is a double, so an integer is rejected as unsafe exactly when
  its rounded double is.
\<close>

datatype jsnum = NaN | Num int | PosInf | NegInf

definition MAX_SAFE_INTEGER :: int where
  "MAX_SAFE_INTEGER = 9007199254740991"

text \<open>
  The least integer that rounds (to nearest, ties to even) to \<^verbatim>\<open>Infinity\<close>: halfway
  between the largest double and \<open>2 ^ 1024\<close>.
\<close>

definition DOUBLE_OVERFLOW :: int where
  "DOUBLE_OVERFLOW = 2 ^ 1024 - 2 ^ 970"

definition number_of_int :: "int \<Rightarrow> jsnum" where
  "number_of_int i =
     (if DOUBLE_OVERFLOW \<le> i then PosInf
      else if i \<le> - DOUBLE_OVERFLOW then NegInf
      else Num i)"

fun js_neg :: "jsnum \<Rightarrow> jsnum" where
  "js_neg NaN = NaN"
| "js_neg (Num i) = Num (- i)"
| "js_neg PosInf = NegInf"
| "js_neg NegInf = PosInf"

fun js_add :: "jsnum \<Rightarrow> jsnum \<Rightarrow> jsnum" where
  "js_add NaN _ = NaN"
| "js_add _ NaN = NaN"
| "js_add (Num a) (Num b) = number_of_int (a + b)"
| "js_add PosInf NegInf = NaN"
| "js_add NegInf PosInf = NaN"
| "js_add PosInf _ = PosInf"
| "js_add NegInf _ = NegInf"
| "js_add (Num a) PosInf = PosInf"
| "js_add (Num a) NegInf = NegInf"

definition js_sub :: "jsnum \<Rightarrow> jsnum \<Rightarrow> jsnum" where
  "js_sub a b = js_add a (js_neg b)"

text \<open>Comparison \<^verbatim>\<open>a > b\<close>: false as soon as one side is \<^verbatim>\<open>NaN\<close>.\<close>

fun js_gt :: "jsnum \<Rightarrow> jsnum \<Rightarrow> bool" where
  "js_gt NaN _ = False"
| "js_gt _ NaN = False"
| "js_gt (Num a) (Num b) = (b < a)"
| "js_gt PosInf PosInf = False"
| "js_gt PosInf _ = True"
| "js_gt NegInf _ = False"
| "js_gt (Num a) PosInf = False"
| "js_gt (Num a) NegInf = True"

subsection \<open>Decimal digits, \<^verbatim>\<open>parseInt\<close> and number-to-string\<close>

text \<open>
  Header values reach the handler as strings of 8-bit characters (Node decodes header
  bytes as Latin-1), so \<^typ>\<open>char\<close> is the right character type here.
\<close>

definition is_digit :: "char \<Rightarrow> bool" where
  "is_digit c = (48 \<le> (of_char c :: nat) \<and> (of_char c :: nat) \<le> 57)"

definition digit_val :: "char \<Rightarrow> nat" where
  "digit_val c = of_char c - 48"

definition digit_char :: "nat \<Rightarrow> char" where
  "digit_char d = char_of (48 + d)"

text \<open>
  The white space \<^verbatim>\<open>parseInt\<close> skips, among the characters below 256: TAB, LF, VT, FF,
  CR, SP and NBSP.
\<close>

definition is_white_space :: "char \<Rightarrow> bool" where
  "is_white_space c = ((of_char c :: nat) \<in> {9, 10, 11, 12, 13, 32, 160})"

fun digits_value :: "nat \<Rightarrow> string \<Rightarrow> nat" where
  "digits_value acc [] = acc"
| "digits_value acc (c # cs) = digits_value (10 * acc + digit_val c) cs"

text \<open>
  \<^verbatim>\<open>parseInt(s, 10)\<close>: skip leading white space, read an optional sign, then the longest
  run of decimal digits; no digit gives \<^verbatim>\<open>NaN\<close>. With the radix given as 10 no
  \<^verbatim>\<open>0x\<close> prefix is recognised.
\<close>

text \<open>
  The digits are read exactly and rounded once; ECMAScript lets an implementation
  approximate after the 20th significant digit, which matters only for numbers far
  beyond the safe integers.
\<close>

definition parseInt :: "string \<Rightarrow> jsnum" where
  "parseInt s =
     (let t = dropWhile is_white_space s;
          neg = (t \<noteq> [] \<and> hd t = CHR ''-'');
          u = (if t \<noteq> [] \<and> (hd t = CHR ''-'' \<or> hd t = CHR ''+'') then tl t else t);
          ds = takeWhile is_digit u
      in if ds = [] then NaN
         else number_of_int ((if neg then - 1 else 1) * int (digits_value 0 ds)))"

fun decimal :: "nat \<Rightarrow> string" where
  "decimal n =
     (if n < 10 then [digit_char n] else decimal (n div 10) @ [digit_char (n mod 10)])"

declare decimal.simps [simp del]

text \<open>
  Number to string, as a template literal does it. Integers of magnitude \<open>10 ^ 21\<close> and
  more print in exponent notation in JavaScript; none reaches a template of the handler.
\<close>

fun js_to_string :: "jsnum \<Rightarrow> string" where
  "js_to_string NaN = ''NaN''"
| "js_to_string PosInf = ''Infinity''"
| "js_to_string NegInf = ''-Infinity''"
| "js_to_string (Num i) = (if i < 0 then ''-'' @ decimal (nat (- i)) else decimal (nat i))"

subsection \<open>String operations\<close>

text \<open>\<^verbatim>\<open>s.replace(/pat/, rep)\<close> for a literal pattern: the first occurrence only.\<close>

fun replace_first :: "string \<Rightarrow> string \<Rightarrow> string \<Rightarrow> string" where
  "replace_first pat rep [] = (if pat = [] then rep else [])"
| "replace_first pat rep (c # cs) =
     (if prefix pat (c # cs) then rep @ drop (length pat) (c # cs)
      else c # replace_first pat rep cs)"

text \<open>\<^verbatim>\<open>s.split(d)\<close> for a one-character separator; the result is never empty.\<close>

fun split_on :: "char \<Rightarrow> string \<Rightarrow> string list" where
  "split_on d [] = [[]]"
| "split_on d (c # cs) =
     (if c = d then [] # split_on d cs
      else (case split_on d cs of [] \<Rightarrow> [[c]] | p # ps \<Rightarrow> (c # p) # ps))"

fun join_with :: "string \<Rightarrow> string list \<Rightarrow> string" where
  "join_with sep [] = []"
| "join_with sep [a] = a"
| "join_with sep (a # b # bs) = a @ sep @ join_with sep (b # bs)"

text \<open>
  Array indexing \<^verbatim>\<open>parts[i]\<close>: \<^verbatim>\<open>undefined\<close> (here \<open>None\<close>) out of range.
\<close>

definition index :: "'a list \<Rightarrow> nat \<Rightarrow> 'a option" where
  "index xs i = (if i < length xs then Some (xs ! i) else None)"

text \<open>Truthiness of a string-or-undefined value: a non-empty string.\<close>

fun truthy :: "string option \<Rightarrow> bool" where
  "truthy None = False"
| "truthy (Some s) = (s \<noteq> [])"

text \<open>\<^verbatim>\<open>parseInt\<close> converts its argument to a string first.\<close>

fun parseInt_value :: "string option \<Rightarrow> jsnum" where
  "parseInt_value None = parseInt ''undefined''"
| "parseInt_value (Some s) = parseInt s"

subsection \<open>\<^verbatim>\<open>path.join\<close> (POSIX)\<close>

text \<open>
  \<^verbatim>\<open>normalizeString\<close> walks the segments of a path: empty segments and \<^verbatim>\<open>.\<close> are
  dropped, \<^verbatim>\<open>..\<close> removes the segment before it; at the root of an absolute path
  \<^verbatim>\<open>..\<close> is dropped, in a relative path (\<open>allowAboveRoot\<close>) it is kept. The
  accumulator holds the segments kept so far, last first.
\<close>

fun normalizeString :: "bool \<Rightarrow> string list \<Rightarrow> string list \<Rightarrow> string list" where
  "normalizeString allowAboveRoot [] res = rev res"
| "normalizeString allowAboveRoot (s # ss) res =
     (if s = [] \<or> s = ''.'' then normalizeString allowAboveRoot ss res
      else if s = ''..'' then
        (case res of
           [] \<Rightarrow> normalizeString allowAboveRoot ss (if allowAboveRoot then [''..''] else [])
         | r # rs \<Rightarrow>
             if r = ''..'' then
               normalizeString allowAboveRoot ss (if allowAboveRoot then ''..'' # res else res)
             else normalizeString allowAboveRoot ss rs)
      else normalizeString allowAboveRoot ss (s # res))"

definition normalize :: "string \<Rightarrow> string" where
  "normalize path =
     (if path = [] then ''.''
      else
        let isAbsolute = (hd path = CHR ''/'');
            trailingSeparator = (last path = CHR ''/'');
            p = join_with ''/'' (normalizeString (\<not> isAbsolute) (split_on CHR ''/'' path) [])
        in if p = [] then
             (if isAbsolute then ''/'' else if trailingSeparator then ''./'' else ''.'')
           else (if isAbsolute then ''/'' else []) @ p @ (if trailingSeparator then ''/'' else []))"

definition path_join :: "string list \<Rightarrow> string" where
  "path_join args =
     (let joined = join_with ''/'' (filter (\<lambda>arg. arg \<noteq> []) args)
      in if joined = [] then ''.'' else normalize joined)"

text \<open>\<^verbatim>\<open>path.isAbsolute\<close>, and what it means for a path to lie in a directory.\<close>

definition isAbsolute :: "string \<Rightarrow> bool" where
  "isAbsolute p = (p \<noteq> [] \<and> hd p = CHR ''/'')"

definition inside_dir :: "string \<Rightarrow> string \<Rightarrow> bool" where
  "inside_dir dir p = (p = dir \<or> prefix (dir @ ''/'') p)"

text \<open>
  The segments \<^verbatim>\<open>normalizeString\<close> keeps are clean: not empty, not a dot segment, free
  of separators. \<open>segments_of\<close> gives the normalised segments of an absolute path.
\<close>

definition clean_segment :: "string \<Rightarrow> bool" where
  "clean_segment s = (s \<noteq> [] \<and> s \<noteq> ''.'' \<and> s \<noteq> ''..'' \<and> CHR ''/'' \<notin> set s)"

definition segments_of :: "string \<Rightarrow> string list" where
  "segments_of p = normalizeString False (split_on CHR ''/'' (tl p)) []"

subsection \<open>The file system and read streams\<close>

text \<open>
  One request sees one snapshot of the file system: a map from the paths that exist to a
  regular file with its bytes, or to a directory with the size \<^verbatim>\<open>stat\<close> reports for
  it. File sizes are numbers, so the model speaks of files of at most
  \<open>MAX_SAFE_INTEGER\<close> bytes where a size enters arithmetic.
\<close>

type_synonym byte = "8 word"

datatype fsnode = File "byte list" | Dir nat

type_synonym filesystem = "string \<rightharpoonup> fsnode"

definition existsSync :: "filesystem \<Rightarrow> string \<Rightarrow> bool" where
  "existsSync fs p = (fs p \<noteq> None)"

datatype js_error = ERR_OUT_OF_RANGE string | ENOENT

fun node_size :: "fsnode \<Rightarrow> jsnum" where
  "node_size (File content) = Num (int (length content))"
| "node_size (Dir n) = Num (int n)"

text \<open>\<^verbatim>\<open>fs.statSync(p).size\<close>; it throws when nothing exists at \<open>p\<close>.\<close>

definition statSync_size :: "filesystem \<Rightarrow> string \<Rightarrow> js_error + jsnum" where
  "statSync_size fs p = (case fs p of None \<Rightarrow> Inl ENOENT | Some n \<Rightarrow> Inr (node_size n))"

text \<open>
  A read stream as \<^verbatim>\<open>fs.createReadStream(path, {start, end})\<close> creates it: the path
  and the inclusive window, \<open>None\<close> for an option that is absent (\<^verbatim>\<open>start\<close>) or
  infinite (\<^verbatim>\<open>end\<close>).
\<close>

record read_stream =
  stream_path :: string
  stream_start :: "nat option"
  stream_end :: "nat option"

text \<open>
  The constructor validates its options before anything is opened: \<^verbatim>\<open>start\<close> must be
  an integer in \<open>[0, MAX_SAFE_INTEGER]\<close>, \<^verbatim>\<open>end\<close> must be such an integer or
  \<^verbatim>\<open>Infinity\<close>, and \<^verbatim>\<open>start\<close> must not exceed \<^verbatim>\<open>end\<close>; otherwise it throws a
  \<^verbatim>\<open>RangeError\<close> with code \<^verbatim>\<open>ERR_OUT_OF_RANGE\<close>.
\<close>

definition checkPosition :: "jsnum \<Rightarrow> string \<Rightarrow> js_error + nat" where
  "checkPosition pos name =
     (case pos of
        Num i \<Rightarrow> if 0 \<le> i \<and> i \<le> MAX_SAFE_INTEGER then Inr (nat i) else Inl (ERR_OUT_OF_RANGE name)
      | _ \<Rightarrow> Inl (ERR_OUT_OF_RANGE name))"

definition createReadStream_range :: "string \<Rightarrow> jsnum \<Rightarrow> jsnum \<Rightarrow> js_error + read_stream" where
  "createReadStream_range p start end =
     (case checkPosition start ''start'' of
        Inl e \<Rightarrow> Inl e
      | Inr s \<Rightarrow>
          if end = PosInf then
            Inr \<lparr>stream_path = p, stream_start = Some s, stream_end = None\<rparr>
          else
            (case checkPosition end ''end'' of
               Inl e \<Rightarrow> Inl e
             | Inr e \<Rightarrow>
                 if js_gt start end then Inl (ERR_OUT_OF_RANGE ''start'')
                 else Inr \<lparr>stream_path = p, stream_start = Some s, stream_end = Some e\<rparr>))"

definition createReadStream :: "string \<Rightarrow> read_stream" where
  "createReadStream p = \<lparr>stream_path = p, stream_start = None, stream_end = None\<rparr>"

text \<open>
  What a stream yields once it is piped: the bytes of the file from \<^verbatim>\<open>start\<close> up to
  and including \<^verbatim>\<open>end\<close>, stopping at the end of the file; nothing when \<^verbatim>\<open>start\<close>
  lies at or past the end. Reading a directory, or a path that is gone, fails after the
  stream was created.
\<close>

datatype read_result = Data "byte list" | ReadError

definition window :: "byte list \<Rightarrow> nat option \<Rightarrow> nat option \<Rightarrow> byte list" where
  "window content s e =
     (let from = (case s of None \<Rightarrow> 0 | Some a \<Rightarrow> a)
      in case e of
           None \<Rightarrow> drop from content
         | Some b \<Rightarrow> take (Suc b - from) (drop from content))"

definition stream_read :: "filesystem \<Rightarrow> read_stream \<Rightarrow> read_result" where
  "stream_read fs rs =
     (case fs (stream_path rs) of
        Some (File content) \<Rightarrow> Data (window content (stream_start rs) (stream_end rs))
      | _ \<Rightarrow> ReadError)"

subsection \<open>Requests and responses\<close>

record request =
  params_filename :: string
  headers_range :: "string option"

datatype header_value = HStr string | HNum jsnum

text \<open>
  A response: the status written, the header object given to \<^verbatim>\<open>writeHead\<close> (empty for
  \<^verbatim>\<open>res.json\<close>, which gets no header object from the handler), and the body, either
  the object given to \<^verbatim>\<open>res.json\<close> or the read stream piped into the response.
\<close>

datatype body = Json "(string \<times> string) list" | Pipe read_stream

record response =
  status :: nat
  head :: "(string \<times> header_value) list"
  body :: body

text \<open>
  The handler either writes a response or lets an exception escape before it has written
  anything (the framework then answers in its place).
\<close>

datatype outcome = Threw js_error | Responded response

subsection \<open>The server script\<close>

definition mediaDir :: "string \<Rightarrow> string" where
  "mediaDir dirname = path_join [dirname, ''media'']"

definition videosDir :: "string \<Rightarrow> string" where
  "videosDir dirname = path_join [mediaDir dirname, ''videos'']"

text \<open>
  The handler of \<^verbatim>\<open>GET /stream/:filename\<close>, statement by statement. \<open>vdir\<close> is the
  module constant \<^verbatim>\<open>videosDir\<close> the closure captures.
\<close>

definition stream_handler :: "string \<Rightarrow> filesystem \<Rightarrow> request \<Rightarrow> outcome" where
  "stream_handler vdir fs req =
     (let videoPath = path_join [vdir, params_filename req] in
      if \<not> existsSync fs videoPath then
        Responded \<lparr>status = 404, head = [], body = Json [(''error'', ''Video not found'')]\<rparr>
      else
        (case statSync_size fs videoPath of
           Inl e \<Rightarrow> Threw e
         | Inr fileSize \<Rightarrow>
             let range = headers_range req in
             if truthy range then
               let parts = split_on CHR ''-'' (replace_first ''bytes='' [] (the range));
                   start = parseInt_value (index parts 0);
                   end = (if truthy (index parts 1) then parseInt_value (index parts 1)
                          else js_sub fileSize (Num 1));
                   chunkSize = js_add (js_sub end start) (Num 1)
               in (case createReadStream_range videoPath start end of
                     Inl e \<Rightarrow> Threw e
                   | Inr file \<Rightarrow>
                       let head =
                             [(''Content-Range'',
                                 HStr (''bytes '' @ js_to_string start @ ''-'' @ js_to_string end
                                       @ ''/'' @ js_to_string fileSize)),
                              (''Accept-Ranges'', HStr ''bytes''),
                              (''Content-Length'', HNum chunkSize),
                              (''Content-Type'', HStr ''video/mp4'')]
                       in Responded \<lparr>status = 206, head = head, body = Pipe file\<rparr>)
             else
               let head =
                     [(''Content-Length'', HNum fileSize),
                      (''Content-Type'', HStr ''video/mp4'')]
               in Responded \<lparr>status = 200, head = head, body = Pipe (createReadStream videoPath)\<rparr>))"

text \<open>The streams a request opened, and the bytes its response body carries.\<close>

fun opened_streams :: "outcome \<Rightarrow> read_stream list" where
  "opened_streams (Threw e) = []"
| "opened_streams (Responded r) = (case body r of Json j \<Rightarrow> [] | Pipe rs \<Rightarrow> [rs])"

fun status_written :: "outcome \<Rightarrow> nat option" where
  "status_written (Threw e) = None"
| "status_written (Responded r) = Some (status r)"


fun body_data :: "filesystem \<Rightarrow> outcome \<Rightarrow> byte list option" where
  "body_data fs (Threw e) = None"
| "body_data fs (Responded r) =
     (case body r of
        Json j \<Rightarrow> None
      | Pipe rs \<Rightarrow> (case stream_read fs rs of Data d \<Rightarrow> Some d | ReadError \<Rightarrow> None))"

section \<open>Properties of the platform model\<close>

subsection \<open>Decimal numerals round-trip through \<^verbatim>\<open>parseInt\<close>\<close>

lemma digit_char_is_digit: "d < 10 \<Longrightarrow> is_digit (digit_char d)"
  by (simp add: is_digit_def digit_char_def)

lemma digit_val_digit_char: "d < 10 \<Longrightarrow> digit_val (digit_char d) = d"
  by (simp add: digit_val_def digit_char_def)

lemma decimal_digits: "c \<in> set (decimal n) \<Longrightarrow> is_digit c"
proof (induction n arbitrary: c rule: decimal.induct)
  case (1 n)
  show ?case
  proof (cases "n < 10")
    case True
    with "1.prems" show ?thesis
      by (simp add: decimal.simps [of n] digit_char_is_digit)
  next
    case False
    with "1.prems" "1.IH" show ?thesis
      by (auto simp add: decimal.simps [of n] digit_char_is_digit)
  qed
qed

lemma decimal_not_Nil: "decimal n \<noteq> []"
  by (subst decimal.simps) simp

lemma digits_value_snoc:
  "digits_value acc (cs @ [c]) = 10 * digits_value acc cs + digit_val c"
  by (induction cs arbitrary: acc) simp_all

lemma digits_value_decimal: "digits_value 0 (decimal n) = n"
proof (induction n rule: decimal.induct)
  case (1 n)
  show ?case
  proof (cases "n < 10")
    case True
    then show ?thesis
      by (simp add: decimal.simps [of n] digit_val_digit_char)
  next
    case False
    with "1.IH" show ?thesis
      by (simp add: decimal.simps [of n] digits_value_snoc digit_val_digit_char)
  qed
qed

lemma digit_not_space: "is_digit c \<Longrightarrow> \<not> is_white_space c"
  by (auto simp add: is_digit_def is_white_space_def)

lemma digit_not_sign: "is_digit c \<Longrightarrow> c \<noteq> CHR ''-'' \<and> c \<noteq> CHR ''+''"
  by (auto simp add: is_digit_def)

lemma parseInt_digits:
  assumes "ds \<noteq> []" and "\<forall>c \<in> set ds. is_digit c"
  shows "parseInt ds = number_of_int (int (digits_value 0 ds))"
proof -
  have c: "is_digit (hd ds)"
    using assms by simp
  have dw: "dropWhile is_white_space ds = ds"
    using c assms(1) by (cases ds) (simp_all add: digit_not_space)
  have tw: "takeWhile is_digit ds = ds"
    using assms(2) by (simp add: takeWhile_eq_all_conv)
  show ?thesis
    using assms(1) digit_not_sign [OF c] by (simp add: parseInt_def Let_def dw tw)
qed

lemma parseInt_decimal: "parseInt (decimal n) = number_of_int (int n)"
  using parseInt_digits [of "decimal n"] decimal_not_Nil decimal_digits
  by (simp add: digits_value_decimal)

lemma number_of_int_safe: "0 \<le> i \<Longrightarrow> i \<le> MAX_SAFE_INTEGER \<Longrightarrow> number_of_int i = Num i"
  by (simp add: number_of_int_def MAX_SAFE_INTEGER_def DOUBLE_OVERFLOW_def)

lemma parseInt_safe:
  "int n \<le> MAX_SAFE_INTEGER \<Longrightarrow> parseInt (decimal n) = Num (int n)"
  by (simp add: parseInt_decimal number_of_int_safe)

lemma js_to_string_nat: "js_to_string (Num (int n)) = decimal n"
  by simp

subsection \<open>Splitting a range header\<close>

lemma replace_first_prefix: "pat \<noteq> [] \<Longrightarrow> replace_first pat rep (pat @ s) = rep @ s"
  by (cases pat) simp_all

lemma split_on_none: "d \<notin> set a \<Longrightarrow> split_on d a = [a]"
  by (induction a) auto

lemma split_on_first: "d \<notin> set a \<Longrightarrow> split_on d (a @ d # b) = a # split_on d b"
  by (induction a) auto

lemma decimal_no_dash: "CHR ''-'' \<notin> set (decimal n)"
  using decimal_digits digit_not_sign by blast

lemma range_parts_closed:
  "split_on CHR ''-'' (replace_first ''bytes='' [] (''bytes='' @ decimal s @ ''-'' @ decimal e))
     = [decimal s, decimal e]"
proof -
  have "replace_first ''bytes='' [] (''bytes='' @ decimal s @ ''-'' @ decimal e)
          = decimal s @ CHR ''-'' # decimal e"
    using replace_first_prefix [of "''bytes=''" "[]" "decimal s @ ''-'' @ decimal e"] by simp
  then show ?thesis
    by (simp add: split_on_first split_on_none decimal_no_dash)
qed

lemma range_parts_open:
  "split_on CHR ''-'' (replace_first ''bytes='' [] (''bytes='' @ decimal s @ ''-''))
     = [decimal s, []]"
proof -
  have "replace_first ''bytes='' [] (''bytes='' @ decimal s @ ''-'')
          = decimal s @ CHR ''-'' # []"
    using replace_first_prefix [of "''bytes=''" "[]" "decimal s @ ''-''"] by simp
  then show ?thesis
    by (simp add: split_on_first decimal_no_dash)
qed

subsection \<open>Read streams\<close>

lemma createReadStream_range_ok:
  assumes "s \<le> e" and "int e \<le> MAX_SAFE_INTEGER"
  shows "createReadStream_range p (Num (int s)) (Num (int e))
           = Inr \<lparr>stream_path = p, stream_start = Some s, stream_end = Some e\<rparr>"
  using assms by (simp add: createReadStream_range_def checkPosition_def)

lemma chunkSize_safe:
  assumes "s \<le> e" and "int e \<le> MAX_SAFE_INTEGER"
  shows "js_add (js_sub (Num (int e)) (Num (int s))) (Num 1) = Num (int e - int s + 1)"
proof -
  have "js_sub (Num (int e)) (Num (int s)) = Num (int e - int s)"
    using assms by (simp add: js_sub_def number_of_int_safe)
  then show ?thesis
    using assms by (simp add: number_of_int_def MAX_SAFE_INTEGER_def DOUBLE_OVERFLOW_def)
qed

lemma stream_read_file:
  "fs p = Some (File content) \<Longrightarrow>
   stream_read fs \<lparr>stream_path = p, stream_start = s, stream_end = e\<rparr>
     = Data (window content s e)"
  by (simp add: stream_read_def)

lemma window_slice:
  assumes "s \<le> e" and "e < length content"
  shows "window content (Some s) (Some e) = map (nth content) [s..<Suc e]"
  unfolding window_def using assms
  by (intro nth_equalityI) (simp_all add: Let_def del: upt_Suc)

lemma window_whole: "window content None None = content"
  by (simp add: window_def)

lemma window_to_last:
  "s < length content \<Longrightarrow> window content (Some s) (Some (length content - 1)) = drop s content"
  by (simp add: window_def)

lemma window_over_end:
  "length content \<le> Suc e \<Longrightarrow> window content (Some s) (Some e) = drop s content"
  by (simp add: window_def)

lemma window_past_end: "length content \<le> s \<Longrightarrow> window content (Some s) e = []"
  by (simp add: window_def split: option.splits)

lemma body_data_pipe:
  assumes "fs p = Some (File content)"
  shows "body_data fs (Responded \<lparr>status = st, head = hs,
            body = Pipe \<lparr>stream_path = p, stream_start = s, stream_end = e\<rparr>\<rparr>)
         = Some (window content s e)"
  using assms by (simp add: stream_read_def)

subsection \<open>Splitting and joining paths\<close>

lemma split_on_not_Nil: "split_on d xs \<noteq> []"
  by (induction xs) (auto split: list.splits)

lemma split_on_append: "split_on d (a @ d # b) = split_on d a @ split_on d b"
proof (induction a)
  case Nil
  show ?case by simp
next
  case (Cons c a)
  obtain p ps where "split_on d a = p # ps"
    using split_on_not_Nil [of d a] by (cases "split_on d a") auto
  with Cons show ?case
    by simp
qed

lemma split_on_no_delim: "s \<in> set (split_on d xs) \<Longrightarrow> d \<notin> set s"
proof (induction xs arbitrary: s)
  case Nil
  then show ?case by simp
next
  case (Cons c xs)
  obtain p ps where ps: "split_on d xs = p # ps"
    using split_on_not_Nil [of d xs] by (cases "split_on d xs") auto
  with Cons show ?case
    by (auto split: if_splits)
qed

lemma split_on_join:
  "segs \<noteq> [] \<Longrightarrow> \<forall>s \<in> set segs. d \<notin> set s \<Longrightarrow> split_on d (join_with [d] segs) = segs"
proof (induction "[d]" segs rule: join_with.induct)
  case 1
  then show ?case by simp
next
  case (2 a)
  then show ?case by (simp add: split_on_none)
next
  case (3 a b bs)
  then show ?case by (simp add: split_on_first)
qed

lemma join_with_append:
  "as \<noteq> [] \<Longrightarrow> bs \<noteq> [] \<Longrightarrow>
   join_with sep (as @ bs) = join_with sep as @ sep @ join_with sep bs"
proof (induction sep as rule: join_with.induct)
  case (1 sep)
  then show ?case by simp
next
  case (2 sep a)
  then show ?case by (cases bs) simp_all
next
  case (3 sep a b bs')
  then show ?case by simp
qed

lemma join_with_not_Nil:
  "segs \<noteq> [] \<Longrightarrow> \<forall>s \<in> set segs. s \<noteq> [] \<Longrightarrow> join_with sep segs \<noteq> []"
  by (induction sep segs rule: join_with.induct) simp_all

lemma normalizeString_append:
  "normalizeString a (ss @ ts) res = normalizeString a ts (rev (normalizeString a ss res))"
proof (induction ss arbitrary: res)
  case Nil
  show ?case by simp
next
  case (Cons s ss)
  show ?case
    by (cases res) (simp_all add: Cons.IH)
qed

lemma normalizeString_no_dotdot:
  "''..'' \<notin> set ss \<Longrightarrow>
   normalizeString a ss res = rev res @ filter (\<lambda>s. s \<noteq> [] \<and> s \<noteq> ''.'') ss"
  by (induction ss arbitrary: res) auto

lemma normalizeString_clean:
  "\<forall>s \<in> set cs. clean_segment s \<Longrightarrow> normalizeString a cs res = rev res @ cs"
proof -
  assume cs: "\<forall>s \<in> set cs. clean_segment s"
  then have "''..'' \<notin> set cs"
    by (auto simp add: clean_segment_def)
  moreover have "filter (\<lambda>s. s \<noteq> [] \<and> s \<noteq> ''.'') cs = cs"
    using cs by (auto simp add: clean_segment_def filter_id_conv)
  ultimately show ?thesis
    by (simp add: normalizeString_no_dotdot)
qed

lemma normalizeString_result_clean:
  assumes "\<forall>s \<in> set res. clean_segment s" and "\<forall>s \<in> set ss. CHR ''/'' \<notin> set s"
  shows "\<forall>s \<in> set (normalizeString False ss res). clean_segment s"
  using assms
proof (induction ss arbitrary: res)
  case Nil
  then show ?case by simp
next
  case (Cons s ss)
  note IH = Cons.IH and acc = Cons.prems(1)
  have rest: "\<forall>t \<in> set ss. CHR ''/'' \<notin> set t" and s: "CHR ''/'' \<notin> set s"
    using Cons.prems(2) by simp_all
  consider (skip) "s = [] \<or> s = ''.''" | (up) "s = ''..''" | (push) "clean_segment s"
    using s by (auto simp add: clean_segment_def)
  then show ?case
  proof cases
    case skip
    then have "normalizeString False (s # ss) res = normalizeString False ss res"
      by auto
    then show ?thesis
      using IH [OF acc rest] by (simp only:)
  next
    case up
    show ?thesis
    proof (cases res)
      case Nil
      with up have "normalizeString False (s # ss) res = normalizeString False ss []"
        by simp
      then show ?thesis
        using IH [of "[]", OF _ rest] by (simp only:) simp
    next
      case (Cons r rs)
      with acc have "r \<noteq> ''..''" and rs: "\<forall>t \<in> set rs. clean_segment t"
        by (auto simp add: clean_segment_def)
      with up Cons have "normalizeString False (s # ss) res = normalizeString False ss rs"
        by simp
      then show ?thesis
        using IH [OF rs rest] by (simp only:)
    qed
  next
    case push
    then have "normalizeString False (s # ss) res = normalizeString False ss (s # res)"
      by (auto simp add: clean_segment_def)
    moreover have "\<forall>t \<in> set (s # res). clean_segment t"
      using push acc by simp
    ultimately show ?thesis
      using IH [of "s # res", OF _ rest] by (simp only:)
  qed
qed

lemma segments_of_clean: "\<forall>s \<in> set (segments_of p). clean_segment s"
  unfolding segments_of_def
  by (rule normalizeString_result_clean) (simp_all add: split_on_no_delim)

subsection \<open>\<^verbatim>\<open>path.join\<close> on an absolute directory\<close>

lemma segments_join_not_Nil:
  "segments_of p \<noteq> [] \<Longrightarrow> join_with ''/'' (segments_of p) \<noteq> []"
  using segments_of_clean [of p] by (intro join_with_not_Nil) (auto simp add: clean_segment_def)

lemma normalize_absolute:
  "normalize (CHR ''/'' # rest) =
     (if segments_of (CHR ''/'' # rest) = [] then ''/''
      else CHR ''/'' # join_with ''/'' (segments_of (CHR ''/'' # rest))
           @ (if last (CHR ''/'' # rest) = CHR ''/'' then ''/'' else []))"
proof -
  have segs: "normalizeString False (split_on CHR ''/'' (CHR ''/'' # rest)) []
                = segments_of (CHR ''/'' # rest)"
    by (simp add: segments_of_def)
  show ?thesis
  proof (cases "segments_of (CHR ''/'' # rest) = []")
    case True
    then show ?thesis
      unfolding normalize_def Let_def by (simp add: segs del: split_on.simps)
  next
    case False
    then show ?thesis
      unfolding normalize_def Let_def
      using segments_join_not_Nil [OF False] by (simp add: segs del: split_on.simps)
  qed
qed

lemma segments_of_join:
  "segments_of (CHR ''/'' # rest @ CHR ''/'' # x)
     = normalizeString False (split_on CHR ''/'' x) (rev (segments_of (CHR ''/'' # rest)))"
  by (simp add: segments_of_def split_on_append normalizeString_append del: split_on.simps)

lemma path_join_absolute:
  assumes "isAbsolute d" and "x \<noteq> []"
  shows "path_join [d, x] =
     (let ks = normalizeString False (split_on CHR ''/'' x) (rev (segments_of d))
      in if ks = [] then ''/''
         else CHR ''/'' # join_with ''/'' ks @ (if last x = CHR ''/'' then ''/'' else []))"
proof -
  obtain rest where d: "d = CHR ''/'' # rest"
    using assms(1) by (cases d) (auto simp add: isAbsolute_def)
  have "path_join [d, x] = normalize (CHR ''/'' # rest @ CHR ''/'' # x)"
    using assms(2) by (simp add: path_join_def d)
  also have "\<dots> =
     (if segments_of (CHR ''/'' # rest @ CHR ''/'' # x) = [] then ''/''
      else CHR ''/'' # join_with ''/'' (segments_of (CHR ''/'' # rest @ CHR ''/'' # x))
           @ (if last (CHR ''/'' # rest @ CHR ''/'' # x) = CHR ''/'' then ''/'' else []))"
    by (rule normalize_absolute)
  also have "last (CHR ''/'' # rest @ CHR ''/'' # x) = last x"
    using assms(2) by simp
  finally show ?thesis
    by (simp only: segments_of_join d Let_def)
qed

lemma segments_of_canonical:
  assumes "cs \<noteq> []" and "\<forall>s \<in> set cs. clean_segment s"
  shows "segments_of (CHR ''/'' # join_with ''/'' cs) = cs"
proof -
  have "\<forall>s \<in> set cs. CHR ''/'' \<notin> set s"
    using assms(2) by (simp add: clean_segment_def)
  then have "split_on CHR ''/'' (join_with [CHR ''/''] cs) = cs"
    using assms(1) by (rule split_on_join [rotated])
  then show ?thesis
    using normalizeString_clean [OF assms(2), of False "[]"] by (simp add: segments_of_def)
qed

lemma path_join_clean_segment:
  assumes "isAbsolute d" and "clean_segment x"
  shows "path_join [d, x] = CHR ''/'' # join_with ''/'' (segments_of d @ [x])"
proof -
  have x: "x \<noteq> []" "CHR ''/'' \<notin> set x" "x \<noteq> ''.''" "x \<noteq> ''..''"
    using assms(2) by (simp_all add: clean_segment_def)
  then have "last x \<noteq> CHR ''/''"
    by (metis last_in_set)
  moreover have "normalizeString False (split_on CHR ''/'' x) (rev (segments_of d))
                   = segments_of d @ [x]"
    using x by (simp add: split_on_none)
  ultimately show ?thesis
    using path_join_absolute [OF assms(1) x(1)] by (simp add: Let_def)
qed

lemma clean_media: "clean_segment ''media''" and clean_videos: "clean_segment ''videos''"
  by (simp_all add: clean_segment_def)

lemma mediaDir_segments:
  "isAbsolute d \<Longrightarrow> mediaDir d = CHR ''/'' # join_with ''/'' (segments_of d @ [''media''])"
  unfolding mediaDir_def by (rule path_join_clean_segment [OF _ clean_media])

lemma videosDir_segments:
  assumes "isAbsolute d"
  shows "videosDir d = CHR ''/'' # join_with ''/'' (segments_of d @ [''media'', ''videos''])"
proof -
  have m: "mediaDir d = CHR ''/'' # join_with ''/'' (segments_of d @ [''media''])"
    using assms by (rule mediaDir_segments)
  then have abs: "isAbsolute (mediaDir d)"
    by (simp add: isAbsolute_def)
  have "\<forall>s \<in> set (segments_of d @ [''media'']). clean_segment s"
    using segments_of_clean [of d] clean_media by simp
  then have "segments_of (mediaDir d) = segments_of d @ [''media'']"
    unfolding m by (intro segments_of_canonical) simp_all
  then show ?thesis
    unfolding videosDir_def
    using path_join_clean_segment [OF abs clean_videos] by simp
qed

lemma videosDir_resolution:
  assumes "isAbsolute d" and "fn \<noteq> []" and "''..'' \<notin> set (split_on CHR ''/'' fn)"
  shows "path_join [videosDir d, fn]
         = videosDir d
           @ (if filter (\<lambda>s. s \<noteq> [] \<and> s \<noteq> ''.'') (split_on CHR ''/'' fn) = [] then []
              else ''/'' @ join_with ''/''
                     (filter (\<lambda>s. s \<noteq> [] \<and> s \<noteq> ''.'') (split_on CHR ''/'' fn)))
           @ (if last fn = CHR ''/'' then ''/'' else [])"
proof -
  let ?V = "segments_of d @ [''media'', ''videos'']"
  let ?F = "filter (\<lambda>s. s \<noteq> [] \<and> s \<noteq> ''.'') (split_on CHR ''/'' fn)"
  have v: "videosDir d = CHR ''/'' # join_with ''/'' ?V"
    using assms(1) by (rule videosDir_segments)
  then have abs: "isAbsolute (videosDir d)"
    by (simp add: isAbsolute_def)
  have "\<forall>s \<in> set ?V. clean_segment s"
    using segments_of_clean [of d] clean_media clean_videos by simp
  then have "segments_of (videosDir d) = ?V"
    unfolding v by (intro segments_of_canonical) simp_all
  then have ks: "normalizeString False (split_on CHR ''/'' fn) (rev (segments_of (videosDir d)))
                  = ?V @ ?F"
    using normalizeString_no_dotdot [OF assms(3), of False "rev ?V"] by simp
  have "path_join [videosDir d, fn]
          = CHR ''/'' # join_with ''/'' (?V @ ?F) @ (if last fn = CHR ''/'' then ''/'' else [])"
    using path_join_absolute [OF abs assms(2)] by (simp only: ks Let_def) simp
  moreover have "join_with ''/'' (?V @ ?F)
          = join_with ''/'' ?V @ (if ?F = [] then [] else ''/'' @ join_with ''/'' ?F)"
  proof (cases "?F = []")
    case True
    then show ?thesis by simp
  next
    case False
    have "?V \<noteq> []" by simp
    from join_with_append [OF this False, of "''/''"] False show ?thesis
      by (simp only: if_False)
  qed
  ultimately show ?thesis
    by (simp only: v) simp
qed

lemma videosDir_contains:
  assumes "isAbsolute d" and "fn \<noteq> []" and "''..'' \<notin> set (split_on CHR ''/'' fn)"
  shows "inside_dir (videosDir d) (path_join [videosDir d, fn])"
  unfolding videosDir_resolution [OF assms] inside_dir_def
  by auto

section \<open>The range branch of the handler\<close>

text \<open>
  Once the header has been split and both numbers parsed to safe integers \<open>s \<le> e\<close>,
  the handler answers 206 over the window \<open>[s, e]\<close>, whatever the size of the file.
\<close>

lemma handler_range_parsed:
  assumes node: "fs (path_join [vdir, fn]) = Some (File content)"
    and r: "r \<noteq> []"
    and start: "parseInt_value (index (split_on CHR ''-'' (replace_first ''bytes='' [] r)) 0)
                  = Num (int s)"
    and stop: "(if truthy (index (split_on CHR ''-'' (replace_first ''bytes='' [] r)) 1)
               then parseInt_value (index (split_on CHR ''-'' (replace_first ''bytes='' [] r)) 1)
               else js_sub (Num (int (length content))) (Num 1)) = Num (int e)"
    and le: "s \<le> e" and safe: "int e \<le> MAX_SAFE_INTEGER"
  shows "stream_handler vdir fs \<lparr>params_filename = fn, headers_range = Some r\<rparr>
         = Responded
             \<lparr>status = 206,
              head =
                [(''Content-Range'',
                    HStr (''bytes '' @ decimal s @ ''-'' @ decimal e @ ''/''
                          @ decimal (length content))),
                 (''Accept-Ranges'', HStr ''bytes''),
                 (''Content-Length'', HNum (Num (int e - int s + 1))),
                 (''Content-Type'', HStr ''video/mp4'')],
              body = Pipe \<lparr>stream_path = path_join [vdir, fn],
                            stream_start = Some s, stream_end = Some e\<rparr>\<rparr>"
  unfolding stream_handler_def Let_def
  by (simp only: request.simps option.sel truthy.simps r not_False_eq_True if_True if_False
      existsSync_def statSync_size_def node option.simps sum.simps node_size.simps
      start stop createReadStream_range_ok [OF le safe] chunkSize_safe [OF le safe]
      js_to_string_nat)
    simp

lemma handler_closed_range:
  assumes node: "fs (path_join [vdir, fn]) = Some (File content)"
    and le: "s \<le> e" and safe: "int e \<le> MAX_SAFE_INTEGER"
  shows "stream_handler vdir fs
           \<lparr>params_filename = fn,
            headers_range = Some (''bytes='' @ decimal s @ ''-'' @ decimal e)\<rparr>
         = Responded
             \<lparr>status = 206,
              head =
                [(''Content-Range'',
                    HStr (''bytes '' @ decimal s @ ''-'' @ decimal e @ ''/''
                          @ decimal (length content))),
                 (''Accept-Ranges'', HStr ''bytes''),
                 (''Content-Length'', HNum (Num (int e - int s + 1))),
                 (''Content-Type'', HStr ''video/mp4'')],
              body = Pipe \<lparr>stream_path = path_join [vdir, fn],
                            stream_start = Some s, stream_end = Some e\<rparr>\<rparr>"
proof (rule handler_range_parsed
    [where fs = fs and vdir = vdir and fn = fn and content = content, OF node _ _ _ le safe])
  have "int s \<le> MAX_SAFE_INTEGER"
    using le safe by simp
  then show "parseInt_value (index (split_on CHR ''-''
          (replace_first ''bytes='' [] (''bytes='' @ decimal s @ ''-'' @ decimal e))) 0) = Num (int s)"
    by (simp only: range_parts_closed) (simp add: index_def parseInt_safe)
  show "(if truthy (index (split_on CHR ''-''
          (replace_first ''bytes='' [] (''bytes='' @ decimal s @ ''-'' @ decimal e))) 1)
         then parseInt_value (index (split_on CHR ''-''
          (replace_first ''bytes='' [] (''bytes='' @ decimal s @ ''-'' @ decimal e))) 1)
         else js_sub (Num (int (length content))) (Num 1)) = Num (int e)"
    using safe by (simp only: range_parts_closed) (simp add: index_def parseInt_safe decimal_not_Nil)
qed simp

lemma handler_open_range:
  assumes node: "fs (path_join [vdir, fn]) = Some (File content)"
    and lt: "s < length content" and size: "int (length content) \<le> MAX_SAFE_INTEGER"
  shows "stream_handler vdir fs
           \<lparr>params_filename = fn,
            headers_range = Some (''bytes='' @ decimal s @ ''-'')\<rparr>
         = Responded
             \<lparr>status = 206,
              head =
                [(''Content-Range'',
                    HStr (''bytes '' @ decimal s @ ''-'' @ decimal (length content - 1) @ ''/''
                          @ decimal (length content))),
                 (''Accept-Ranges'', HStr ''bytes''),
                 (''Content-Length'', HNum (Num (int (length content - 1) - int s + 1))),
                 (''Content-Type'', HStr ''video/mp4'')],
              body = Pipe \<lparr>stream_path = path_join [vdir, fn],
                            stream_start = Some s, stream_end = Some (length content - 1)\<rparr>\<rparr>"
proof (rule handler_range_parsed
    [where fs = fs and vdir = vdir and fn = fn and content = content, OF node])
  show "s \<le> length content - 1"
    using lt by arith
  show e: "int (length content - 1) \<le> MAX_SAFE_INTEGER"
    using size by simp
  have "int s \<le> MAX_SAFE_INTEGER"
    using lt size by simp
  then show "parseInt_value (index (split_on CHR ''-''
          (replace_first ''bytes='' [] (''bytes='' @ decimal s @ ''-''))) 0) = Num (int s)"
    by (simp only: range_parts_open) (simp add: index_def parseInt_safe)
  have pos: "0 < length content"
    using lt by arith
  then have "0 \<le> int (length content) - 1" and "int (length content) - 1 \<le> MAX_SAFE_INTEGER"
    using size by simp_all
  then have n: "number_of_int (int (length content) - 1) = Num (int (length content) - 1)"
    by (rule number_of_int_safe)
  have eq: "int (length content) - 1 = int (length content - 1)"
    using pos by arith
  have "js_sub (Num (int (length content))) (Num 1) = number_of_int (int (length content) - 1)"
    by (simp add: js_sub_def)
  also have "\<dots> = Num (int (length content) - 1)"
    by (rule n)
  also have "\<dots> = Num (int (length content - 1))"
    by (simp only: eq)
  finally have "js_sub (Num (int (length content))) (Num 1) = Num (int (length content - 1))" .
  then show "(if truthy (index (split_on CHR ''-''
          (replace_first ''bytes='' [] (''bytes='' @ decimal s @ ''-''))) 1)
         then parseInt_value (index (split_on CHR ''-''
          (replace_first ''bytes='' [] (''bytes='' @ decimal s @ ''-''))) 1)
         else js_sub (Num (int (length content))) (Num 1)) = Num (int (length content - 1))"
    by (simp only: range_parts_open) (simp add: index_def)
qed simp

text \<open>
  The suffix form \<^verbatim>\<open>bytes=-N\<close> has nothing before the dash: the start parses to
  \<^verbatim>\<open>NaN\<close> and the stream constructor throws, whatever exists at the path.
\<close>

lemma parseInt_empty: "parseInt [] = NaN"
  by (simp add: parseInt_def)

lemma createReadStream_range_NaN:
  "createReadStream_range p NaN e = Inl (ERR_OUT_OF_RANGE ''start'')"
  by (simp add: createReadStream_range_def checkPosition_def)

lemma handler_suffix_range:
  assumes "fs (path_join [vdir, fn]) = Some node"
  shows "stream_handler vdir fs
           \<lparr>params_filename = fn, headers_range = Some (''bytes=-'' @ decimal n)\<rparr>
         = Threw (ERR_OUT_OF_RANGE ''start'')"
proof -
  have "split_on CHR ''-'' (replace_first ''bytes='' [] (''bytes=-'' @ decimal n))
          = [[], decimal n]"
    using replace_first_prefix [of "''bytes=''" "[]" "''-'' @ decimal n"]
    by (simp add: split_on_none decimal_no_dash)
  then have "parseInt_value (index (split_on CHR ''-''
               (replace_first ''bytes='' [] (''bytes=-'' @ decimal n))) 0) = NaN"
    by (simp only:) (simp add: index_def parseInt_empty)
  then show ?thesis
    unfolding stream_handler_def Let_def
    using assms
    by (simp only: request.simps option.sel truthy.simps existsSync_def statSync_size_def
        option.simps sum.simps createReadStream_range_NaN)
       simp
qed

text \<open>
  The only test the handler applies to the identifier is the existence of the resolved
  path: 404 is written exactly when nothing exists there.
\<close>

lemma handler_404_iff:
  "status_written (stream_handler vdir fs \<lparr>params_filename = fn, headers_range = rh\<rparr>) = Some 404
     \<longleftrightarrow> fs (path_join [vdir, fn]) = None"
  by (simp add: stream_handler_def Let_def existsSync_def statSync_size_def
      split: sum.split option.split)

text \<open>The path of the file the examples below request.\<close>

lemma path_join_a_mp4:
  "path_join [''/srv/media/videos'', ''a.mp4''] = ''/srv/media/videos/a.mp4''"
  by code_simp

section \<open>The claims\<close>

text \<open>
  Claim C1. For a file of size \<open>size\<close> (a safe integer) present at the resolved path and every
  \<open>0 \<le> start \<le> end < size\<close>, the request \<^verbatim>\<open>Range: bytes=<start>-<end>\<close> is answered
  with status 206, \<^verbatim>\<open>Content-Length\<close> \<open>end - start + 1\<close>, \<^verbatim>\<open>Content-Range\<close>
  \<^verbatim>\<open>bytes <start>-<end>/<size>\<close>, and a body that is the bytes of the file at the offsets
  \<open>start, \<dots>, end\<close>.
\<close>

theorem range_request_serves_slice:
  assumes "fs (path_join [vdir, filename]) = Some (File content)"
    and "int (length content) \<le> MAX_SAFE_INTEGER"
    and "start \<le> end" and "end < length content"
  shows "stream_handler vdir fs
           \<lparr>params_filename = filename,
            headers_range = Some (''bytes='' @ decimal start @ ''-'' @ decimal end)\<rparr>
         = Responded
             \<lparr>status = 206,
              head =
                [(''Content-Range'',
                    HStr (''bytes '' @ decimal start @ ''-'' @ decimal end @ ''/''
                          @ decimal (length content))),
                 (''Accept-Ranges'', HStr ''bytes''),
                 (''Content-Length'', HNum (Num (int end - int start + 1))),
                 (''Content-Type'', HStr ''video/mp4'')],
              body = Pipe \<lparr>stream_path = path_join [vdir, filename],
                            stream_start = Some start, stream_end = Some end\<rparr>\<rparr>
       \<and> stream_read fs \<lparr>stream_path = path_join [vdir, filename],
                          stream_start = Some start, stream_end = Some end\<rparr>
         = Data (map (\<lambda>i. content ! i) [start..<Suc end])"
proof
  have "int end \<le> MAX_SAFE_INTEGER"
    using assms(2,4) by simp
  then show "stream_handler vdir fs
           \<lparr>params_filename = filename,
            headers_range = Some (''bytes='' @ decimal start @ ''-'' @ decimal end)\<rparr>
         = Responded
             \<lparr>status = 206,
              head =
                [(''Content-Range'',
                    HStr (''bytes '' @ decimal start @ ''-'' @ decimal end @ ''/''
                          @ decimal (length content))),
                 (''Accept-Ranges'', HStr ''bytes''),
                 (''Content-Length'', HNum (Num (int end - int start + 1))),
                 (''Content-Type'', HStr ''video/mp4'')],
              body = Pipe \<lparr>stream_path = path_join [vdir, filename],
                            stream_start = Some start, stream_end = Some end\<rparr>\<rparr>"
    using assms(1,3) by (rule handler_closed_range [rotated 2])
  show "stream_read fs \<lparr>stream_path = path_join [vdir, filename],
                          stream_start = Some start, stream_end = Some end\<rparr>
         = Data (map (\<lambda>i. content ! i) [start..<Suc end])"
    using assms(1,3,4) by (simp add: stream_read_file window_slice del: upt_Suc)
qed

theorem range_request_serves_slice_witness:
  "[''/srv/media/videos/a.mp4'' \<mapsto> File [10, 11, 12, 13, 14, 15, 16, 17]]
     (path_join [''/srv/media/videos'', ''a.mp4'']) = Some (File [10, 11, 12, 13, 14, 15, 16, 17])
   \<and> int (length [10, 11, 12, 13, 14, 15, 16, 17 :: byte]) \<le> MAX_SAFE_INTEGER
   \<and> (2 :: nat) \<le> 5 \<and> 5 < length [10, 11, 12, 13, 14, 15, 16, 17 :: byte]
   \<and> stream_handler ''/srv/media/videos''
         [''/srv/media/videos/a.mp4'' \<mapsto> File [10, 11, 12, 13, 14, 15, 16, 17]]
         \<lparr>params_filename = ''a.mp4'', headers_range = Some ''bytes=2-5''\<rparr>
       = Responded
           \<lparr>status = 206,
            head =
              [(''Content-Range'', HStr ''bytes 2-5/8''),
               (''Accept-Ranges'', HStr ''bytes''),
               (''Content-Length'', HNum (Num 4)),
               (''Content-Type'', HStr ''video/mp4'')],
            body = Pipe \<lparr>stream_path = ''/srv/media/videos/a.mp4'',
                          stream_start = Some 2, stream_end = Some 5\<rparr>\<rparr>
   \<and> stream_read [''/srv/media/videos/a.mp4'' \<mapsto> File [10, 11, 12, 13, 14, 15, 16, 17]]
         \<lparr>stream_path = ''/srv/media/videos/a.mp4'', stream_start = Some 2, stream_end = Some 5\<rparr>
       = Data [12, 13, 14, 15]"
proof -
  have d: "decimal 2 = ''2''" "decimal 5 = ''5''" "decimal 8 = ''8''"
    by code_simp+
  have u: "[2..<Suc 5] = [2, 3, 4, 5]"
    by code_simp
  have h1: "[''/srv/media/videos/a.mp4'' \<mapsto> File [10, 11, 12, 13, 14, 15, 16, 17]]
     (path_join [''/srv/media/videos'', ''a.mp4'']) = Some (File [10, 11, 12, 13, 14, 15, 16, 17])"
    by (simp add: path_join_a_mp4)
  have h2: "int (length [10, 11, 12, 13, 14, 15, 16, 17 :: byte]) \<le> MAX_SAFE_INTEGER"
    by (simp add: MAX_SAFE_INTEGER_def)
  have h3: "(2 :: nat) \<le> 5" and h4: "5 < length [10, 11, 12, 13, 14, 15, 16, 17 :: byte]"
    by simp_all
  have len: "length [10, 11, 12, 13, 14, 15, 16, 17 :: byte] = 8"
    by simp
  note range_request_serves_slice
        [of "[''/srv/media/videos/a.mp4'' \<mapsto> File [10, 11, 12, 13, 14, 15, 16, 17]]"
            "''/srv/media/videos''" "''a.mp4''" "[10, 11, 12, 13, 14, 15, 16, 17]" 2 5,
         OF h1 h2 h3 h4, unfolded len d u path_join_a_mp4]
  then show ?thesis
    using h1 h2 h4 by simp
qed

text \<open>
  Claim C4. For a file of size \<open>size\<close> present at the resolved path, a request without a
  \<^verbatim>\<open>Range\<close> header is answered with status 200, \<^verbatim>\<open>Content-Length\<close> \<open>size\<close>, and
  a body that is the whole file.
\<close>

theorem no_range_serves_whole_file:
  assumes "fs (path_join [vdir, filename]) = Some (File content)"
  shows "stream_handler vdir fs \<lparr>params_filename = filename, headers_range = None\<rparr>
         = Responded
             \<lparr>status = 200,
              head =
                [(''Content-Length'', HNum (Num (int (length content)))),
                 (''Content-Type'', HStr ''video/mp4'')],
              body = Pipe \<lparr>stream_path = path_join [vdir, filename],
                            stream_start = None, stream_end = None\<rparr>\<rparr>
       \<and> stream_read fs \<lparr>stream_path = path_join [vdir, filename],
                          stream_start = None, stream_end = None\<rparr>
         = Data content"
  using assms
  by (simp add: stream_handler_def existsSync_def statSync_size_def createReadStream_def
      stream_read_file window_whole)

theorem no_range_serves_whole_file_witness:
  "[''/srv/media/videos/a.mp4'' \<mapsto> File [10, 11, 12, 13, 14, 15, 16, 17]]
     (path_join [''/srv/media/videos'', ''a.mp4'']) = Some (File [10, 11, 12, 13, 14, 15, 16, 17])
   \<and> stream_handler ''/srv/media/videos''
         [''/srv/media/videos/a.mp4'' \<mapsto> File [10, 11, 12, 13, 14, 15, 16, 17]]
         \<lparr>params_filename = ''a.mp4'', headers_range = None\<rparr>
       = Responded
           \<lparr>status = 200,
            head = [(''Content-Length'', HNum (Num 8)), (''Content-Type'', HStr ''video/mp4'')],
            body = Pipe \<lparr>stream_path = ''/srv/media/videos/a.mp4'',
                          stream_start = None, stream_end = None\<rparr>\<rparr>
   \<and> stream_read [''/srv/media/videos/a.mp4'' \<mapsto> File [10, 11, 12, 13, 14, 15, 16, 17]]
         \<lparr>stream_path = ''/srv/media/videos/a.mp4'', stream_start = None, stream_end = None\<rparr>
       = Data [10, 11, 12, 13, 14, 15, 16, 17]"
proof -
  have h1: "[''/srv/media/videos/a.mp4'' \<mapsto> File [10, 11, 12, 13, 14, 15, 16, 17]]
     (path_join [''/srv/media/videos'', ''a.mp4'']) = Some (File [10, 11, 12, 13, 14, 15, 16, 17])"
    by (simp add: path_join_a_mp4)
  note no_range_serves_whole_file
        [of "[''/srv/media/videos/a.mp4'' \<mapsto> File [10, 11, 12, 13, 14, 15, 16, 17]]"
            "''/srv/media/videos''" "''a.mp4''" "[10, 11, 12, 13, 14, 15, 16, 17]",
         OF h1, unfolded path_join_a_mp4]
  then show ?thesis
    using h1 by simp
qed

text \<open>
  Claim C5. For a file of size \<open>size\<close> (a safe integer) present at the resolved path and every
  \<open>0 \<le> start < size\<close>, the open-ended request \<^verbatim>\<open>Range: bytes=<start>-\<close> is answered
  with status 206, \<^verbatim>\<open>Content-Range\<close> \<^verbatim>\<open>bytes <start>-<size-1>/<size>\<close>,
  \<^verbatim>\<open>Content-Length\<close> \<open>size - start\<close>, and a body that is the file from offset
  \<open>start\<close> to its last byte.
\<close>

theorem open_ended_range_serves_tail:
  assumes "fs (path_join [vdir, filename]) = Some (File content)"
    and "int (length content) \<le> MAX_SAFE_INTEGER"
    and "start < length content"
  shows "stream_handler vdir fs
           \<lparr>params_filename = filename,
            headers_range = Some (''bytes='' @ decimal start @ ''-'')\<rparr>
         = Responded
             \<lparr>status = 206,
              head =
                [(''Content-Range'',
                    HStr (''bytes '' @ decimal start @ ''-'' @ decimal (length content - 1)
                          @ ''/'' @ decimal (length content))),
                 (''Accept-Ranges'', HStr ''bytes''),
                 (''Content-Length'', HNum (Num (int (length content) - int start))),
                 (''Content-Type'', HStr ''video/mp4'')],
              body = Pipe \<lparr>stream_path = path_join [vdir, filename],
                            stream_start = Some start,
                            stream_end = Some (length content - 1)\<rparr>\<rparr>
       \<and> stream_read fs \<lparr>stream_path = path_join [vdir, filename],
                          stream_start = Some start, stream_end = Some (length content - 1)\<rparr>
         = Data (drop start content)"
proof -
  have len: "int (length content - 1) - int start + 1 = int (length content) - int start"
    using assms(3) by arith
  have "stream_read fs \<lparr>stream_path = path_join [vdir, filename],
                          stream_start = Some start, stream_end = Some (length content - 1)\<rparr>
          = Data (window content (Some start) (Some (length content - 1)))"
    using assms(1) by (rule stream_read_file)
  then have "stream_read fs \<lparr>stream_path = path_join [vdir, filename],
                          stream_start = Some start, stream_end = Some (length content - 1)\<rparr>
          = Data (drop start content)"
    by (simp only: window_to_last [OF assms(3)])
  then show ?thesis
    using handler_open_range [where fs = fs, OF assms(1,3,2)]
    by (simp only: len simp_thms)
qed

theorem open_ended_range_serves_tail_witness:
  "[''/srv/media/videos/a.mp4'' \<mapsto> File [10, 11, 12, 13, 14, 15, 16, 17]]
     (path_join [''/srv/media/videos'', ''a.mp4'']) = Some (File [10, 11, 12, 13, 14, 15, 16, 17])
   \<and> int (length [10, 11, 12, 13, 14, 15, 16, 17 :: byte]) \<le> MAX_SAFE_INTEGER
   \<and> 3 < length [10, 11, 12, 13, 14, 15, 16, 17 :: byte]
   \<and> stream_handler ''/srv/media/videos''
         [''/srv/media/videos/a.mp4'' \<mapsto> File [10, 11, 12, 13, 14, 15, 16, 17]]
         \<lparr>params_filename = ''a.mp4'', headers_range = Some ''bytes=3-''\<rparr>
       = Responded
           \<lparr>status = 206,
            head =
              [(''Content-Range'', HStr ''bytes 3-7/8''),
               (''Accept-Ranges'', HStr ''bytes''),
               (''Content-Length'', HNum (Num 5)),
               (''Content-Type'', HStr ''video/mp4'')],
            body = Pipe \<lparr>stream_path = ''/srv/media/videos/a.mp4'',
                          stream_start = Some 3, stream_end = Some 7\<rparr>\<rparr>
   \<and> stream_read [''/srv/media/videos/a.mp4'' \<mapsto> File [10, 11, 12, 13, 14, 15, 16, 17]]
         \<lparr>stream_path = ''/srv/media/videos/a.mp4'', stream_start = Some 3, stream_end = Some 7\<rparr>
       = Data [13, 14, 15, 16, 17]"
proof -
  have d: "decimal 3 = ''3''" "decimal 7 = ''7''" "decimal 8 = ''8''"
    by code_simp+
  have h1: "[''/srv/media/videos/a.mp4'' \<mapsto> File [10, 11, 12, 13, 14, 15, 16, 17]]
     (path_join [''/srv/media/videos'', ''a.mp4'']) = Some (File [10, 11, 12, 13, 14, 15, 16, 17])"
    by (simp add: path_join_a_mp4)
  have h2: "int (length [10, 11, 12, 13, 14, 15, 16, 17 :: byte]) \<le> MAX_SAFE_INTEGER"
    by (simp add: MAX_SAFE_INTEGER_def)
  have h3: "3 < length [10, 11, 12, 13, 14, 15, 16, 17 :: byte]"
    by simp
  have len: "length [10, 11, 12, 13, 14, 15, 16, 17 :: byte] = 8" "8 - 1 = (7 :: nat)"
    by simp_all
  note open_ended_range_serves_tail
        [of "[''/srv/media/videos/a.mp4'' \<mapsto> File [10, 11, 12, 13, 14, 15, 16, 17]]"
            "''/srv/media/videos''" "''a.mp4''" "[10, 11, 12, 13, 14, 15, 16, 17]" 3,
         OF h1 h2 h3, unfolded len d path_join_a_mp4]
  then show ?thesis
    using h1 h2 h3 by simp
qed



text \<open>
  Claim C9. The status the handler writes is 200, 206 or 404, or it writes none because
  an exception escapes first; no request, whatever its \<^verbatim>\<open>Range\<close> header, makes it
  write 416.
\<close>

theorem handler_statuses:
  "status_written (stream_handler vdir fs req) \<in> {None, Some 200, Some 206, Some 404}
   \<and> status_written (stream_handler vdir fs req) \<noteq> Some 416"
  by (simp add: stream_handler_def Let_def split: sum.split)

text \<open>
  Claim C8. For a file of at least 2000 bytes present at the resolved path, the body of
  the request \<^verbatim>\<open>Range: bytes=0-999\<close> followed by the body of the request
  \<^verbatim>\<open>Range: bytes=1000-1999\<close> is the first 2000 bytes of the file.
\<close>

theorem sequential_ranges_concatenate:
  assumes "fs (path_join [vdir, filename]) = Some (File content)"
    and "2000 \<le> length content"
  shows "\<exists>first second.
           body_data fs (stream_handler vdir fs
             \<lparr>params_filename = filename, headers_range = Some ''bytes=0-999''\<rparr>) = Some first
         \<and> body_data fs (stream_handler vdir fs
             \<lparr>params_filename = filename, headers_range = Some ''bytes=1000-1999''\<rparr>) = Some second
         \<and> first @ second = take 2000 content"
proof -
  have d: "decimal 0 = ''0''" "decimal 999 = ''999''" "decimal 1000 = ''1000''"
    "decimal 1999 = ''1999''"
    by code_simp+
  have "stream_handler vdir fs
          \<lparr>params_filename = filename,
           headers_range = Some (''bytes='' @ decimal 0 @ ''-'' @ decimal 999)\<rparr>
        = Responded
             \<lparr>status = 206,
              head =
                [(''Content-Range'',
                    HStr (''bytes '' @ decimal 0 @ ''-'' @ decimal 999 @ ''/''
                          @ decimal (length content))),
                 (''Accept-Ranges'', HStr ''bytes''),
                 (''Content-Length'', HNum (Num (int 999 - int 0 + 1))),
                 (''Content-Type'', HStr ''video/mp4'')],
              body = Pipe \<lparr>stream_path = path_join [vdir, filename],
                            stream_start = Some 0, stream_end = Some 999\<rparr>\<rparr>"
    using assms(1) by (rule handler_closed_range) (simp_all add: MAX_SAFE_INTEGER_def)
  then have one: "body_data fs (stream_handler vdir fs
             \<lparr>params_filename = filename, headers_range = Some ''bytes=0-999''\<rparr>)
          = Some (window content (Some 0) (Some 999))"
    using body_data_pipe [where fs = fs, OF assms(1)] by (simp add: d)
  have "stream_handler vdir fs
          \<lparr>params_filename = filename,
           headers_range = Some (''bytes='' @ decimal 1000 @ ''-'' @ decimal 1999)\<rparr>
        = Responded
             \<lparr>status = 206,
              head =
                [(''Content-Range'',
                    HStr (''bytes '' @ decimal 1000 @ ''-'' @ decimal 1999 @ ''/''
                          @ decimal (length content))),
                 (''Accept-Ranges'', HStr ''bytes''),
                 (''Content-Length'', HNum (Num (int 1999 - int 1000 + 1))),
                 (''Content-Type'', HStr ''video/mp4'')],
              body = Pipe \<lparr>stream_path = path_join [vdir, filename],
                            stream_start = Some 1000, stream_end = Some 1999\<rparr>\<rparr>"
    using assms(1) by (rule handler_closed_range) (simp_all add: MAX_SAFE_INTEGER_def)
  then have two: "body_data fs (stream_handler vdir fs
             \<lparr>params_filename = filename, headers_range = Some ''bytes=1000-1999''\<rparr>)
          = Some (window content (Some 1000) (Some 1999))"
    using body_data_pipe [where fs = fs, OF assms(1)] by (simp add: d)
  have "window content (Some 0) (Some 999) @ window content (Some 1000) (Some 1999)
          = take (1000 + 1000) content"
    by (simp only: take_add) (simp add: window_def)
  then have "window content (Some 0) (Some 999) @ window content (Some 1000) (Some 1999)
          = take 2000 content"
    by simp
  with one two show ?thesis
    by blast
qed

theorem sequential_ranges_concatenate_witness:
  "[''/srv/media/videos/a.mp4'' \<mapsto> File (replicate 2000 7)]
     (path_join [''/srv/media/videos'', ''a.mp4'']) = Some (File (replicate 2000 7))
   \<and> 2000 \<le> length (replicate 2000 (7 :: byte))
   \<and> (\<exists>first second.
         body_data [''/srv/media/videos/a.mp4'' \<mapsto> File (replicate 2000 7)]
           (stream_handler ''/srv/media/videos''
              [''/srv/media/videos/a.mp4'' \<mapsto> File (replicate 2000 7)]
              \<lparr>params_filename = ''a.mp4'', headers_range = Some ''bytes=0-999''\<rparr>) = Some first
       \<and> body_data [''/srv/media/videos/a.mp4'' \<mapsto> File (replicate 2000 7)]
           (stream_handler ''/srv/media/videos''
              [''/srv/media/videos/a.mp4'' \<mapsto> File (replicate 2000 7)]
              \<lparr>params_filename = ''a.mp4'', headers_range = Some ''bytes=1000-1999''\<rparr>)
           = Some second
       \<and> first @ second = take 2000 (replicate 2000 7))"
proof -
  have h1: "[''/srv/media/videos/a.mp4'' \<mapsto> File (replicate 2000 7)]
     (path_join [''/srv/media/videos'', ''a.mp4'']) = Some (File (replicate 2000 7))"
    by (simp add: path_join_a_mp4)
  have h2: "2000 \<le> length (replicate 2000 (7 :: byte))"
    by simp
  from sequential_ranges_concatenate
        [of "[''/srv/media/videos/a.mp4'' \<mapsto> File (replicate 2000 7)]"
            "''/srv/media/videos''" "''a.mp4''" "replicate 2000 7", OF h1 h2] h1 h2
  show ?thesis
    by (intro conjI)
qed

text \<open>
  Claim C2, as amended. A request \<^verbatim>\<open>Range: bytes=<start>-<end>\<close> whose start lies at or
  beyond the end of the file (\<open>size \<le> start \<le> end\<close>, \<open>end\<close> a safe integer) is not
  rejected: the handler answers 206 with \<^verbatim>\<open>Content-Range\<close>
  \<^verbatim>\<open>bytes <start>-<end>/<size>\<close> and \<^verbatim>\<open>Content-Length\<close> \<open>end - start + 1\<close>, and
  pipes a stream opened at \<open>start\<close>, which yields no byte.
\<close>

theorem range_past_eof_is_served:
  assumes "fs (path_join [vdir, filename]) = Some (File content)"
    and "length content \<le> start" and "start \<le> end" and "int end \<le> MAX_SAFE_INTEGER"
  shows "stream_handler vdir fs
           \<lparr>params_filename = filename,
            headers_range = Some (''bytes='' @ decimal start @ ''-'' @ decimal end)\<rparr>
         = Responded
             \<lparr>status = 206,
              head =
                [(''Content-Range'',
                    HStr (''bytes '' @ decimal start @ ''-'' @ decimal end @ ''/''
                          @ decimal (length content))),
                 (''Accept-Ranges'', HStr ''bytes''),
                 (''Content-Length'', HNum (Num (int end - int start + 1))),
                 (''Content-Type'', HStr ''video/mp4'')],
              body = Pipe \<lparr>stream_path = path_join [vdir, filename],
                            stream_start = Some start, stream_end = Some end\<rparr>\<rparr>
       \<and> stream_read fs \<lparr>stream_path = path_join [vdir, filename],
                          stream_start = Some start, stream_end = Some end\<rparr>
         = Data []"
proof
  show "stream_handler vdir fs
           \<lparr>params_filename = filename,
            headers_range = Some (''bytes='' @ decimal start @ ''-'' @ decimal end)\<rparr>
         = Responded
             \<lparr>status = 206,
              head =
                [(''Content-Range'',
                    HStr (''bytes '' @ decimal start @ ''-'' @ decimal end @ ''/''
                          @ decimal (length content))),
                 (''Accept-Ranges'', HStr ''bytes''),
                 (''Content-Length'', HNum (Num (int end - int start + 1))),
                 (''Content-Type'', HStr ''video/mp4'')],
              body = Pipe \<lparr>stream_path = path_join [vdir, filename],
                            stream_start = Some start, stream_end = Some end\<rparr>\<rparr>"
    using assms(1,3,4) by (rule handler_closed_range)
  show "stream_read fs \<lparr>stream_path = path_join [vdir, filename],
                          stream_start = Some start, stream_end = Some end\<rparr>
         = Data []"
    using assms(1,2) by (simp add: stream_read_file window_past_end)
qed

theorem range_past_eof_is_served_witness:
  "[''/srv/media/videos/a.mp4'' \<mapsto> File [1, 2, 3]]
     (path_join [''/srv/media/videos'', ''a.mp4'']) = Some (File [1, 2, 3])
   \<and> length [1, 2, 3 :: byte] \<le> 3 \<and> (3 :: nat) \<le> 103 \<and> int 103 \<le> MAX_SAFE_INTEGER
   \<and> stream_handler ''/srv/media/videos'' [''/srv/media/videos/a.mp4'' \<mapsto> File [1, 2, 3]]
         \<lparr>params_filename = ''a.mp4'', headers_range = Some ''bytes=3-103''\<rparr>
       = Responded
           \<lparr>status = 206,
            head =
              [(''Content-Range'', HStr ''bytes 3-103/3''),
               (''Accept-Ranges'', HStr ''bytes''),
               (''Content-Length'', HNum (Num 101)),
               (''Content-Type'', HStr ''video/mp4'')],
            body = Pipe \<lparr>stream_path = ''/srv/media/videos/a.mp4'',
                          stream_start = Some 3, stream_end = Some 103\<rparr>\<rparr>
   \<and> stream_read [''/srv/media/videos/a.mp4'' \<mapsto> File [1, 2, 3]]
         \<lparr>stream_path = ''/srv/media/videos/a.mp4'', stream_start = Some 3,
          stream_end = Some 103\<rparr>
       = Data []"
proof -
  have d: "decimal 3 = ''3''" "decimal 103 = ''103''"
    by code_simp+
  have h1: "[''/srv/media/videos/a.mp4'' \<mapsto> File [1, 2, 3]]
     (path_join [''/srv/media/videos'', ''a.mp4'']) = Some (File [1, 2, 3])"
    by (simp add: path_join_a_mp4)
  have h2: "length [1, 2, 3 :: byte] \<le> 3" and h3: "(3 :: nat) \<le> 103"
    and h4: "int 103 \<le> MAX_SAFE_INTEGER"
    by (simp_all add: MAX_SAFE_INTEGER_def)
  have len: "length [1, 2, 3 :: byte] = 3"
    by simp
  note range_past_eof_is_served
        [of "[''/srv/media/videos/a.mp4'' \<mapsto> File [1, 2, 3]]"
            "''/srv/media/videos''" "''a.mp4''" "[1, 2, 3]" 3 103,
         OF h1 h2 h3 h4, unfolded len d path_join_a_mp4]
  then show ?thesis
    using h1 h4 by simp
qed

text \<open>
  Claim C2 as stated fails: on a file of 3 bytes the request \<^verbatim>\<open>Range: bytes=3-103\<close>,
  whose start is the size of the file, is answered 206, not 416, with
  \<^verbatim>\<open>Content-Range: bytes 3-103/3\<close>, and a read stream is opened over the file.
\<close>

theorem range_past_eof_counterexample:
  "status_written
     (stream_handler ''/srv/media/videos'' [''/srv/media/videos/a.mp4'' \<mapsto> File [1, 2, 3]]
        \<lparr>params_filename = ''a.mp4'', headers_range = Some ''bytes=3-103''\<rparr>) \<noteq> Some 416
   \<and> stream_handler ''/srv/media/videos'' [''/srv/media/videos/a.mp4'' \<mapsto> File [1, 2, 3]]
         \<lparr>params_filename = ''a.mp4'', headers_range = Some ''bytes=3-103''\<rparr>
       = Responded
           \<lparr>status = 206,
            head =
              [(''Content-Range'', HStr ''bytes 3-103/3''),
               (''Accept-Ranges'', HStr ''bytes''),
               (''Content-Length'', HNum (Num 101)),
               (''Content-Type'', HStr ''video/mp4'')],
            body = Pipe \<lparr>stream_path = ''/srv/media/videos/a.mp4'',
                          stream_start = Some 3, stream_end = Some 103\<rparr>\<rparr>
   \<and> opened_streams
        (stream_handler ''/srv/media/videos'' [''/srv/media/videos/a.mp4'' \<mapsto> File [1, 2, 3]]
           \<lparr>params_filename = ''a.mp4'', headers_range = Some ''bytes=3-103''\<rparr>)
       = [\<lparr>stream_path = ''/srv/media/videos/a.mp4'', stream_start = Some 3,
           stream_end = Some 103\<rparr>]"
proof -
  have "stream_handler ''/srv/media/videos'' [''/srv/media/videos/a.mp4'' \<mapsto> File [1, 2, 3]]
         \<lparr>params_filename = ''a.mp4'', headers_range = Some ''bytes=3-103''\<rparr>
       = Responded
           \<lparr>status = 206,
            head =
              [(''Content-Range'', HStr ''bytes 3-103/3''),
               (''Accept-Ranges'', HStr ''bytes''),
               (''Content-Length'', HNum (Num 101)),
               (''Content-Type'', HStr ''video/mp4'')],
            body = Pipe \<lparr>stream_path = ''/srv/media/videos/a.mp4'',
                          stream_start = Some 3, stream_end = Some 103\<rparr>\<rparr>"
    by code_simp
  then show ?thesis
    by simp
qed

text \<open>
  Claim C3. On a file of 3 bytes the suffix request \<^verbatim>\<open>Range: bytes=-500\<close> should
  return the whole file (its last \<open>min 500 3\<close> bytes). The handler parses the empty text
  before the dash to \<^verbatim>\<open>NaN\<close>, and \<^verbatim>\<open>fs.createReadStream\<close> throws on that start
  before any response is written.
\<close>

theorem suffix_range_throws:
  "stream_handler ''/srv/media/videos'' [''/srv/media/videos/a.mp4'' \<mapsto> File [1, 2, 3]]
     \<lparr>params_filename = ''a.mp4'', headers_range = Some ''bytes=-500''\<rparr>
   = Threw (ERR_OUT_OF_RANGE ''start'')"
  by code_simp

text \<open>
  Claim C10, as amended. For a file of size \<open>size\<close> and a request
  \<^verbatim>\<open>Range: bytes=<a>-<b>\<close> with \<open>0 \<le> a < size \<le> b\<close> and \<open>b\<close> a safe integer, the
  handler answers 206 with \<^verbatim>\<open>Content-Range\<close> \<^verbatim>\<open>bytes <a>-<b>/<size>\<close> and
  \<^verbatim>\<open>Content-Length\<close> \<open>b - a + 1\<close>: the end is not clamped. The stream yields the
  \<open>size - a\<close> bytes from \<open>a\<close> to the end of the file, fewer than the declared length.
\<close>

theorem unclamped_end_overstates_length:
  assumes "fs (path_join [vdir, filename]) = Some (File content)"
    and "a < length content" and "length content \<le> b" and "int b \<le> MAX_SAFE_INTEGER"
  shows "stream_handler vdir fs
           \<lparr>params_filename = filename,
            headers_range = Some (''bytes='' @ decimal a @ ''-'' @ decimal b)\<rparr>
         = Responded
             \<lparr>status = 206,
              head =
                [(''Content-Range'',
                    HStr (''bytes '' @ decimal a @ ''-'' @ decimal b @ ''/''
                          @ decimal (length content))),
                 (''Accept-Ranges'', HStr ''bytes''),
                 (''Content-Length'', HNum (Num (int b - int a + 1))),
                 (''Content-Type'', HStr ''video/mp4'')],
              body = Pipe \<lparr>stream_path = path_join [vdir, filename],
                            stream_start = Some a, stream_end = Some b\<rparr>\<rparr>
       \<and> stream_read fs \<lparr>stream_path = path_join [vdir, filename],
                          stream_start = Some a, stream_end = Some b\<rparr>
         = Data (drop a content)
       \<and> length (drop a content) = length content - a
       \<and> int (length content - a) < int b - int a + 1"
proof (intro conjI)
  have "a \<le> b"
    using assms(2,3) by arith
  with assms(1) show "stream_handler vdir fs
           \<lparr>params_filename = filename,
            headers_range = Some (''bytes='' @ decimal a @ ''-'' @ decimal b)\<rparr>
         = Responded
             \<lparr>status = 206,
              head =
                [(''Content-Range'',
                    HStr (''bytes '' @ decimal a @ ''-'' @ decimal b @ ''/''
                          @ decimal (length content))),
                 (''Accept-Ranges'', HStr ''bytes''),
                 (''Content-Length'', HNum (Num (int b - int a + 1))),
                 (''Content-Type'', HStr ''video/mp4'')],
              body = Pipe \<lparr>stream_path = path_join [vdir, filename],
                            stream_start = Some a, stream_end = Some b\<rparr>\<rparr>"
    using assms(4) by (rule handler_closed_range)
  show "stream_read fs \<lparr>stream_path = path_join [vdir, filename],
                          stream_start = Some a, stream_end = Some b\<rparr>
         = Data (drop a content)"
    using assms(1,3) by (simp add: stream_read_file window_over_end)
  show "length (drop a content) = length content - a"
    by simp
  show "int (length content - a) < int b - int a + 1"
    using assms(2,3) by arith
qed

theorem unclamped_end_overstates_length_witness:
  "[''/srv/media/videos/a.mp4'' \<mapsto> File [1, 2, 3]]
     (path_join [''/srv/media/videos'', ''a.mp4'']) = Some (File [1, 2, 3])
   \<and> 1 < length [1, 2, 3 :: byte] \<and> length [1, 2, 3 :: byte] \<le> 9
   \<and> int 9 \<le> MAX_SAFE_INTEGER
   \<and> stream_handler ''/srv/media/videos'' [''/srv/media/videos/a.mp4'' \<mapsto> File [1, 2, 3]]
         \<lparr>params_filename = ''a.mp4'', headers_range = Some ''bytes=1-9''\<rparr>
       = Responded
           \<lparr>status = 206,
            head =
              [(''Content-Range'', HStr ''bytes 1-9/3''),
               (''Accept-Ranges'', HStr ''bytes''),
               (''Content-Length'', HNum (Num 9)),
               (''Content-Type'', HStr ''video/mp4'')],
            body = Pipe \<lparr>stream_path = ''/srv/media/videos/a.mp4'',
                          stream_start = Some 1, stream_end = Some 9\<rparr>\<rparr>
   \<and> stream_read [''/srv/media/videos/a.mp4'' \<mapsto> File [1, 2, 3]]
         \<lparr>stream_path = ''/srv/media/videos/a.mp4'', stream_start = Some 1, stream_end = Some 9\<rparr>
       = Data [2, 3]"
proof -
  have d: "decimal 1 = ''1''" "decimal 9 = ''9''" "decimal 3 = ''3''"
    by code_simp+
  have h1: "[''/srv/media/videos/a.mp4'' \<mapsto> File [1, 2, 3]]
     (path_join [''/srv/media/videos'', ''a.mp4'']) = Some (File [1, 2, 3])"
    by (simp add: path_join_a_mp4)
  have h2: "1 < length [1, 2, 3 :: byte]" and h3: "length [1, 2, 3 :: byte] \<le> 9"
    and h4: "int 9 \<le> MAX_SAFE_INTEGER"
    by (simp_all add: MAX_SAFE_INTEGER_def)
  have len: "length [1, 2, 3 :: byte] = 3"
    by simp
  note unclamped_end_overstates_length
        [of "[''/srv/media/videos/a.mp4'' \<mapsto> File [1, 2, 3]]"
            "''/srv/media/videos''" "''a.mp4''" "[1, 2, 3]" 1 9,
         OF h1 h2 h3 h4, unfolded len d path_join_a_mp4]
  then show ?thesis
    using h1 h4 by simp
qed

text \<open>
  Claim C10 as stated fails for an end that is not a safe integer: on a file of 3 bytes
  the request \<^verbatim>\<open>Range: bytes=0-9007199254740992\<close> (\<open>0 < 3 \<le> 2 ^ 53\<close>) makes
  \<^verbatim>\<open>fs.createReadStream\<close> throw, and the handler writes no 206.
\<close>

theorem unclamped_end_counterexample:
  "stream_handler ''/srv/media/videos'' [''/srv/media/videos/a.mp4'' \<mapsto> File [1, 2, 3]]
     \<lparr>params_filename = ''a.mp4'', headers_range = Some ''bytes=0-9007199254740992''\<rparr>
   = Threw (ERR_OUT_OF_RANGE ''end'')"
  by (simp add: stream_handler_def path_join_a_mp4 existsSync_def statSync_size_def index_def
      parseInt_def is_digit_def is_white_space_def digit_val_def number_of_int_def
      DOUBLE_OVERFLOW_def createReadStream_range_def checkPosition_def MAX_SAFE_INTEGER_def)

text \<open>
  Claim C6, as amended. The handler rejects no identifier: it joins the identifier to the
  videos directory with \<^verbatim>\<open>path.join\<close>, which normalises the result, answers 404
  exactly when nothing exists at the resolved path, whatever the \<^verbatim>\<open>Range\<close> header,
  and serves the file that exists there (200 with the whole file when no \<^verbatim>\<open>Range\<close>
  header is sent). For a non-empty identifier without a \<^verbatim>\<open>..\<close> segment, an absolute
  path or one with separators included, the resolved path stays inside the videos
  directory.
\<close>

theorem identifier_resolution:
  assumes "isAbsolute dirname" and "filename \<noteq> []"
  shows "(''..'' \<notin> set (split_on CHR ''/'' filename) \<longrightarrow>
            inside_dir (videosDir dirname) (path_join [videosDir dirname, filename]))
       \<and> (status_written
             (stream_handler (videosDir dirname) fs
                \<lparr>params_filename = filename, headers_range = rangeHeader\<rparr>) = Some 404
            \<longleftrightarrow> fs (path_join [videosDir dirname, filename]) = None)
       \<and> (fs (path_join [videosDir dirname, filename]) = Some (File content) \<longrightarrow>
            stream_handler (videosDir dirname) fs
              \<lparr>params_filename = filename, headers_range = None\<rparr>
            = Responded
                \<lparr>status = 200,
                 head =
                   [(''Content-Length'', HNum (Num (int (length content)))),
                    (''Content-Type'', HStr ''video/mp4'')],
                 body = Pipe \<lparr>stream_path = path_join [videosDir dirname, filename],
                               stream_start = None, stream_end = None\<rparr>\<rparr>
          \<and> stream_read fs \<lparr>stream_path = path_join [videosDir dirname, filename],
                               stream_start = None, stream_end = None\<rparr>
            = Data content)"
proof (intro conjI impI)
  assume "''..'' \<notin> set (split_on CHR ''/'' filename)"
  with assms show "inside_dir (videosDir dirname) (path_join [videosDir dirname, filename])"
    by (rule videosDir_contains)
next
  show "status_written
          (stream_handler (videosDir dirname) fs
             \<lparr>params_filename = filename, headers_range = rangeHeader\<rparr>) = Some 404
        \<longleftrightarrow> fs (path_join [videosDir dirname, filename]) = None"
    by (rule handler_404_iff)
next
  assume "fs (path_join [videosDir dirname, filename]) = Some (File content)"
  then show "stream_handler (videosDir dirname) fs
              \<lparr>params_filename = filename, headers_range = None\<rparr>
            = Responded
                \<lparr>status = 200,
                 head =
                   [(''Content-Length'', HNum (Num (int (length content)))),
                    (''Content-Type'', HStr ''video/mp4'')],
                 body = Pipe \<lparr>stream_path = path_join [videosDir dirname, filename],
                               stream_start = None, stream_end = None\<rparr>\<rparr>"
    by (simp add: stream_handler_def existsSync_def statSync_size_def createReadStream_def)
next
  assume "fs (path_join [videosDir dirname, filename]) = Some (File content)"
  then show "stream_read fs \<lparr>stream_path = path_join [videosDir dirname, filename],
                               stream_start = None, stream_end = None\<rparr>
            = Data content"
    by (simp add: stream_read_file window_whole)
qed

theorem identifier_resolution_witness:
  "isAbsolute ''/srv'' \<and> ''/a.mp4'' \<noteq> []
   \<and> ''..'' \<notin> set (split_on CHR ''/'' ''/a.mp4'')
   \<and> inside_dir (videosDir ''/srv'') (path_join [videosDir ''/srv'', ''/a.mp4''])
   \<and> [''/srv/media/videos/a.mp4'' \<mapsto> File [1, 2, 3]]
        (path_join [videosDir ''/srv'', ''/a.mp4'']) = Some (File [1, 2, 3])
   \<and> status_written
        (stream_handler (videosDir ''/srv'') [''/srv/media/videos/a.mp4'' \<mapsto> File [1, 2, 3]]
           \<lparr>params_filename = ''/a.mp4'', headers_range = Some ''bytes=0-1''\<rparr>) \<noteq> Some 404
   \<and> stream_handler (videosDir ''/srv'') [''/srv/media/videos/a.mp4'' \<mapsto> File [1, 2, 3]]
         \<lparr>params_filename = ''/a.mp4'', headers_range = None\<rparr>
       = Responded
           \<lparr>status = 200,
            head = [(''Content-Length'', HNum (Num 3)), (''Content-Type'', HStr ''video/mp4'')],
            body = Pipe \<lparr>stream_path = ''/srv/media/videos/a.mp4'',
                          stream_start = None, stream_end = None\<rparr>\<rparr>
   \<and> stream_read [''/srv/media/videos/a.mp4'' \<mapsto> File [1, 2, 3]]
         \<lparr>stream_path = ''/srv/media/videos/a.mp4'', stream_start = None, stream_end = None\<rparr>
       = Data [1, 2, 3]"
proof -
  have h1: "isAbsolute ''/srv''" and h2: "''/a.mp4'' \<noteq> []"
    by (simp_all add: isAbsolute_def)
  have h3: "''..'' \<notin> set (split_on CHR ''/'' ''/a.mp4'')"
    by simp
  have p: "path_join [videosDir ''/srv'', ''/a.mp4''] = ''/srv/media/videos/a.mp4''"
    by code_simp
  have h4: "[''/srv/media/videos/a.mp4'' \<mapsto> File [1, 2, 3]]
        (path_join [videosDir ''/srv'', ''/a.mp4'']) = Some (File [1, 2, 3])"
    by (simp add: p)
  have len: "int (length [1, 2, 3 :: byte]) = 3"
    by simp
  note identifier_resolution
         [of "''/srv''" "''/a.mp4''" "[''/srv/media/videos/a.mp4'' \<mapsto> File [1, 2, 3]]"
             "Some ''bytes=0-1''" "[1, 2, 3]", OF h1 h2, unfolded len]
  then show ?thesis
    using h1 h2 h3 h4 by (simp add: p)
qed

text \<open>
  Claim C6 as stated fails: with the server installed in \<^verbatim>\<open>/srv\<close>, the identifier
  \<^verbatim>\<open>../secret\<close> is neither rejected nor sanitised; it resolves to
  \<^verbatim>\<open>/srv/media/secret\<close>, outside the videos directory \<^verbatim>\<open>/srv/media/videos\<close>, and
  the bytes of that file are served with status 200.
\<close>

theorem traversal_counterexample:
  "\<not> inside_dir (videosDir ''/srv'') (path_join [videosDir ''/srv'', ''../secret''])
   \<and> stream_handler (videosDir ''/srv'') [''/srv/media/secret'' \<mapsto> File [42, 43]]
         \<lparr>params_filename = ''../secret'', headers_range = None\<rparr>
       = Responded
           \<lparr>status = 200,
            head = [(''Content-Length'', HNum (Num 2)), (''Content-Type'', HStr ''video/mp4'')],
            body = Pipe \<lparr>stream_path = ''/srv/media/secret'',
                          stream_start = None, stream_end = None\<rparr>\<rparr>
   \<and> stream_read [''/srv/media/secret'' \<mapsto> File [42, 43]]
         \<lparr>stream_path = ''/srv/media/secret'', stream_start = None, stream_end = None\<rparr>
       = Data [42, 43]"
proof -
  have v: "videosDir ''/srv'' = ''/srv/media/videos''"
    by code_simp
  have p: "path_join [''/srv/media/videos'', ''../secret''] = ''/srv/media/secret''"
    by code_simp
  have "\<not> inside_dir ''/srv/media/videos'' ''/srv/media/secret''"
    by (simp add: inside_dir_def)
  moreover have "stream_handler ''/srv/media/videos'' [''/srv/media/secret'' \<mapsto> File [42, 43]]
         \<lparr>params_filename = ''../secret'', headers_range = None\<rparr>
       = Responded
           \<lparr>status = 200,
            head = [(''Content-Length'', HNum (Num 2)), (''Content-Type'', HStr ''video/mp4'')],
            body = Pipe \<lparr>stream_path = ''/srv/media/secret'',
                          stream_start = None, stream_end = None\<rparr>\<rparr>"
    by (simp add: stream_handler_def p existsSync_def statSync_size_def createReadStream_def)
  moreover have "stream_read [''/srv/media/secret'' \<mapsto> File [42, 43]]
         \<lparr>stream_path = ''/srv/media/secret'', stream_start = None, stream_end = None\<rparr>
       = Data [42, 43]"
    by (simp add: stream_read_def window_def)
  ultimately show ?thesis
    by (simp only: v p simp_thms)
qed

end
